theory Spec2Isabelle
  imports Main
begin

section \<open>Data model\<close>

text \<open>
  The repository holds two editions of one program: \<^verbatim>\<open>password_manager_v2.5.py\<close>
  (the integrated edition) and \<^verbatim>\<open>password_manager_v2.py\<close> (its predecessor).
  Definitions without a suffix embed the v2.5 methods; a definition with the suffix
  \<open>_v2\<close> embeds the v2.0 method of the same name where the two differ.

  A Python \<open>str\<close> is a sequence of Unicode code points and \<open>bytes\<close> a sequence of
  octets; both are lists of naturals here. \<open>u\<close> turns an ASCII literal into a \<open>str\<close>.
\<close>

type_synonym str = "nat list"
type_synonym bytes = "nat list"

definition u :: "string \<Rightarrow> str" where
  "u s = map of_char s"

text \<open>
  Everything the program calls in third-party or standard libraries, and whose result
  is not fixed by the repository's own text, is a field of \<open>pylib\<close>:
  the Unicode character database behind \<open>str.isupper\<close>, \<open>str.islower\<close>,
  \<open>str.isdigit\<close> and \<open>str.strip\<close> for code points beyond ASCII,
  \<open>hashlib.sha256\<close>, \<open>PBKDF2HMAC.derive\<close>, \<open>Fernet.encrypt\<close> and \<open>Fernet.decrypt\<close>
  (with \<open>None\<close> for a raised exception), and the database engine's \<open>LIKE\<close> and its
  comparison of the integer \<open>id\<close> column with a bound text parameter.
  \<open>Fernet.encrypt\<close> reads the operating system's randomness and clock; that reading is
  its explicit second argument.
\<close>

record pylib =
  uc_isupper :: "nat \<Rightarrow> bool"
  uc_islower :: "nat \<Rightarrow> bool"
  uc_isdigit :: "nat \<Rightarrow> bool"
  uc_isspace :: "nat \<Rightarrow> bool"
  sha256 :: "bytes \<Rightarrow> bytes"
  pbkdf2_hmac_sha256 :: "nat \<Rightarrow> bytes \<Rightarrow> int \<Rightarrow> bytes \<Rightarrow> bytes"
  fernet_encrypt :: "bytes \<Rightarrow> bytes \<Rightarrow> bytes \<Rightarrow> bytes option"
  fernet_decrypt :: "bytes \<Rightarrow> bytes \<Rightarrow> bytes option"
  sql_like :: "str \<Rightarrow> str \<Rightarrow> bool"
  sql_id_eq :: "int \<Rightarrow> str \<Rightarrow> bool"

subsection \<open>Character classes\<close>

text \<open>
  On ASCII the classes are fixed: \<open>A\<close>..\<open>Z\<close>, \<open>a\<close>..\<open>z\<close>, \<open>0\<close>..\<open>9\<close>, and the
  white space of \<open>str.isspace\<close> (tab to carriage return, the four separators
  \<open>0x1c\<close>..\<open>0x1f\<close>, and the space). \<open>string.punctuation\<close> is the constant
  \<^verbatim>\<open>!"#$%&'()*+,-./:;<=>?@[\]^_`{|}~\<close>, listed by code point.
\<close>

definition isupper :: "pylib \<Rightarrow> nat \<Rightarrow> bool" where
  "isupper L c = (if c < 128 then 65 \<le> c \<and> c \<le> 90 else uc_isupper L c)"

definition islower :: "pylib \<Rightarrow> nat \<Rightarrow> bool" where
  "islower L c = (if c < 128 then 97 \<le> c \<and> c \<le> 122 else uc_islower L c)"

definition isdigit :: "pylib \<Rightarrow> nat \<Rightarrow> bool" where
  "isdigit L c = (if c < 128 then 48 \<le> c \<and> c \<le> 57 else uc_isdigit L c)"

definition isspace :: "pylib \<Rightarrow> nat \<Rightarrow> bool" where
  "isspace L c =
     (if c < 128 then (9 \<le> c \<and> c \<le> 13) \<or> (28 \<le> c \<and> c \<le> 32) else uc_isspace L c)"

definition string_punctuation :: str where
  "string_punctuation =
     [33, 34, 35, 36, 37, 38, 39, 40, 41, 42, 43, 44, 45, 46, 47,
      58, 59, 60, 61, 62, 63, 64,
      91, 92, 93, 94, 95, 96,
      123, 124, 125, 126]"

text \<open>\<open>str.strip()\<close>: leading and trailing white space removed.\<close>

definition strip :: "pylib \<Rightarrow> str \<Rightarrow> str" where
  "strip L s = rev (dropWhile (isspace L) (rev (dropWhile (isspace L) s)))"

section \<open>Password strength\<close>

text \<open>
  \<open>PasswordGenerator.check_strength\<close> (v2.5, lines 129-164) returns the score and the
  feedback lines; \<open>PasswordManager.check_strength\<close> (v2.0, lines 100-108) returns
  the score only and has no step for length 16.
\<close>

definition check_strength :: "pylib \<Rightarrow> str \<Rightarrow> nat \<times> str list" where
  "check_strength L password =
     (let (score, feedback) = (0, []);
          (score, feedback) =
            (if length password \<ge> 8 then (score + 1, feedback)
             else (score, feedback @ [u ''Too short (min 8)'']));
          score = (if length password \<ge> 12 then score + 1 else score);
          score = (if length password \<ge> 16 then score + 1 else score);
          (score, feedback) =
            (if list_ex (isupper L) password then (score + 1, feedback)
             else (score, feedback @ [u ''Add uppercase letters'']));
          (score, feedback) =
            (if list_ex (islower L) password then (score + 1, feedback)
             else (score, feedback @ [u ''Add lowercase letters'']));
          (score, feedback) =
            (if list_ex (isdigit L) password then (score + 1, feedback)
             else (score, feedback @ [u ''Add numbers'']));
          (score, feedback) =
            (if list_ex (\<lambda>c. c \<in> set string_punctuation) password then (score + 1, feedback)
             else (score, feedback @ [u ''Add symbols'']))
      in (min score 5, feedback))"

definition check_strength_v2 :: "pylib \<Rightarrow> str \<Rightarrow> nat" where
  "check_strength_v2 L pw =
     (let score = 0;
          score = (if length pw \<ge> 8 then score + 1 else score);
          score = (if length pw \<ge> 12 then score + 1 else score);
          score = (if list_ex (isupper L) pw then score + 1 else score);
          score = (if list_ex (islower L) pw then score + 1 else score);
          score = (if list_ex (isdigit L) pw then score + 1 else score);
          score = (if list_ex (\<lambda>c. c \<in> set string_punctuation) pw then score + 1 else score)
      in min score 5)"

text \<open>
  The reference policy of the specification, in its words: the number of the five
  criteria length at least 8, has-upper, has-lower, has-digit, has-symbol that a
  passphrase meets. It is stated for comparison with the code's score.
\<close>

definition criteria_met :: "pylib \<Rightarrow> str \<Rightarrow> nat" where
  "criteria_met L pw =
     of_bool (length pw \<ge> 8) + of_bool (list_ex (isupper L) pw)
     + of_bool (list_ex (islower L) pw) + of_bool (list_ex (isdigit L) pw)
     + of_bool (list_ex (\<lambda>c. c \<in> set string_punctuation) pw)"

text \<open>The points the code adds for length beyond the five criteria.\<close>

definition length_bonus :: "str \<Rightarrow> nat" where
  "length_bonus pw = of_bool (length pw \<ge> 12) + of_bool (length pw \<ge> 16)"

definition length_bonus_v2 :: "str \<Rightarrow> nat" where
  "length_bonus_v2 pw = of_bool (length pw \<ge> 12)"

lemma check_strength_score:
  "fst (check_strength L pw) = min (criteria_met L pw + length_bonus pw) 5"
  by (simp add: check_strength_def criteria_met_def length_bonus_def Let_def)

lemma check_strength_v2_score:
  "check_strength_v2 L pw = min (criteria_met L pw + length_bonus_v2 pw) 5"
  by (simp add: check_strength_v2_def criteria_met_def length_bonus_v2_def Let_def)

section \<open>Codecs\<close>

text \<open>
  \<open>str.encode()\<close> is UTF-8: one to four octets per code point, and
  \<open>UnicodeEncodeError\<close> (\<open>None\<close>) on a surrogate. \<open>bytes.decode()\<close> is the
  strict inverse: \<open>UnicodeDecodeError\<close> (\<open>None\<close>) on a stray or missing continuation
  octet, an overlong form, a surrogate or a value past \<open>0x10FFFF\<close>.
\<close>

definition utf8_char :: "nat \<Rightarrow> bytes option" where
  "utf8_char c =
     (if c < 0x80 then Some [c]
      else if c < 0x800 then Some [0xC0 + c div 64, 0x80 + c mod 64]
      else if 0xD800 \<le> c \<and> c \<le> 0xDFFF then None
      else if c < 0x10000 then
        Some [0xE0 + c div 4096, 0x80 + (c div 64) mod 64, 0x80 + c mod 64]
      else if c < 0x110000 then
        Some [0xF0 + c div 262144, 0x80 + (c div 4096) mod 64,
              0x80 + (c div 64) mod 64, 0x80 + c mod 64]
      else None)"

fun utf8_encode :: "str \<Rightarrow> bytes option" where
  "utf8_encode [] = Some []"
| "utf8_encode (c # cs) =
     (case utf8_char c of
        None \<Rightarrow> None
      | Some bs \<Rightarrow> (case utf8_encode cs of None \<Rightarrow> None | Some rest \<Rightarrow> Some (bs @ rest)))"




text \<open>\<open>hexdigest()\<close>: two lower-case hexadecimal digits per octet.\<close>

definition hexdigit :: "nat \<Rightarrow> nat" where
  "hexdigit d = (if d < 10 then 48 + d else 87 + d)"

definition hexdigest :: "bytes \<Rightarrow> str" where
  "hexdigest bs = concat (map (\<lambda>b. [hexdigit (b div 16), hexdigit (b mod 16)]) bs)"

text \<open>
  \<open>base64.urlsafe_b64encode\<close>: three octets become four characters of the alphabet
  \<open>A-Z a-z 0-9 - _\<close>; a last group of one or two octets is padded with \<open>=\<close>.
\<close>

definition b64char :: "nat \<Rightarrow> nat" where
  "b64char i =
     (if i < 26 then 65 + i
      else if i < 52 then 71 + i
      else if i < 62 then i - 4
      else if i = 62 then 45
      else 95)"

fun urlsafe_b64encode :: "bytes \<Rightarrow> bytes" where
  "urlsafe_b64encode [] = []"
| "urlsafe_b64encode [a] = [b64char (a div 4), b64char ((a mod 4) * 16), 61, 61]"
| "urlsafe_b64encode [a, b] =
     [b64char (a div 4), b64char ((a mod 4) * 16 + b div 16), b64char ((b mod 16) * 4), 61]"
| "urlsafe_b64encode (a # b # c # rest) =
     [b64char (a div 4), b64char ((a mod 4) * 16 + b div 16),
      b64char ((b mod 16) * 4 + c div 64), b64char (c mod 64)] @ urlsafe_b64encode rest"

text \<open>\<open>secrets.token_bytes(n)\<close>: the next \<open>n\<close> octets of the system generator \<open>E\<close>.\<close>

definition token_bytes :: "(nat \<Rightarrow> nat) \<Rightarrow> nat \<Rightarrow> bytes" where
  "token_bytes E n = map (\<lambda>i. E i mod 256) [0..<n]"

section \<open>The vault\<close>

text \<open>
  One row of the table \<open>accounts\<close>, and the lines the program prints through its
  helpers \<open>print_success\<close>, \<open>print_error\<close>, \<open>print_warning\<close> and \<open>print_info\<close>;
  where a handler appends the text of the exception it caught, that text is left out.
  \<open>Display_strength\<close> stands for the lines of \<open>display_strength\<close> (v2.5): the bar
  of the score, the length and the suggestions; \<open>Show_strength\<close> for the one line of
  \<open>show_strength\<close> (v2.0); \<open>Show_account\<close> for the lines in which \<open>get\<close> shows a
  row with its decrypted password. Colour codes, rules, banners, menus and prompts are
  left out of the terminal's record.
\<close>

record row =
  rid :: int
  service :: str
  username :: str
  password :: bytes
  url :: str
  "notes" :: str
  created :: str
  updated :: str

datatype out =
    Print_success str
  | Print_error str
  | Print_warning str
  | Print_info str
  | Print str
  | Display_strength nat nat "str list"
  | Show_strength nat
  | Show_account row str

text \<open>
  The state the methods of \<open>PasswordManager\<close> read and write: the files
  \<open>salt.key\<close> and \<open>master.hash\<close> (\<open>None\<close> when absent), \<open>self.key\<close>, the table of
  \<open>passwords.db\<close> with the file's modification time, the directory \<open>backups\<close> in
  the order \<open>glob\<close> lists it (each artifact with its name, its modification time and
  the rows copied), \<open>self.config\<close>, and the terminal. The modification time is of
  any linearly ordered type.
\<close>

record 't artifact =
  name :: str
  mtime :: 't
  content :: "row list"

record 't vault =
  salt_file :: "bytes option"
  master_file :: "str option"
  key :: "bytes option"
  accounts :: "row list"
  db_mtime :: 't
  backups :: "'t artifact list"
  auto_backup :: bool
  backup_count :: int
  console :: "out list"

definition emit :: "out \<Rightarrow> 't vault \<Rightarrow> 't vault" where
  "emit m v = v\<lparr>console := console v @ [m]\<rparr>"

datatype error = EOFError | UnicodeEncodeError | EncryptionError

section \<open>Salt, verifier and key\<close>

text \<open>\<open>get_salt\<close> (v2.5 lines 250-258, v2.0 lines 69-76; the same text).\<close>

definition get_salt :: "(nat \<Rightarrow> nat) \<Rightarrow> 't vault \<Rightarrow> bytes \<times> 't vault" where
  "get_salt E v =
     (case salt_file v of
        Some contents \<Rightarrow> (contents, v)
      | None \<Rightarrow> (let salt = token_bytes E 16 in (salt, v\<lparr>salt_file := Some salt\<rparr>)))"

text \<open>\<open>hash_password\<close> (v2.5 lines 260-262, v2.0 lines 78-79).\<close>

definition hash_password :: "pylib \<Rightarrow> str \<Rightarrow> error + str" where
  "hash_password L pw =
     (case utf8_encode pw of
        None \<Rightarrow> Inl UnicodeEncodeError
      | Some b \<Rightarrow> Inr (hexdigest (sha256 L b)))"

text \<open>
  \<open>get_key\<close> (v2.5 lines 264-273, v2.0 lines 81-89). The salt is read, or made,
  when the \<open>PBKDF2HMAC\<close> object is built, before the passphrase is encoded.
\<close>

definition get_key :: "pylib \<Rightarrow> (nat \<Rightarrow> nat) \<Rightarrow> 't vault \<Rightarrow> str \<Rightarrow> (error + bytes) \<times> 't vault" where
  "get_key L E v pw =
     (let (salt, v') = get_salt E v
      in case utf8_encode pw of
           None \<Rightarrow> (Inl UnicodeEncodeError, v')
         | Some b \<Rightarrow> (Inr (urlsafe_b64encode (pbkdf2_hmac_sha256 L 32 salt 100000 b)), v'))"

text \<open>
  \<open>encrypt\<close> and \<open>decrypt\<close> (v2.5 lines 275-288). Every exception ends in
  \<open>None\<close>; \<open>encrypt\<close> prints the failure. \<open>Fernet(self.key)\<close> with no key set raises.
  \<open>R\<close> is what \<open>Fernet.encrypt\<close> reads from the system at this call.
\<close>

definition encrypt :: "pylib \<Rightarrow> bytes \<Rightarrow> 't vault \<Rightarrow> str \<Rightarrow> bytes option \<times> 't vault" where
  "encrypt L R v data =
     (case (case key v of
              None \<Rightarrow> None
            | Some k \<Rightarrow> (case utf8_encode data of None \<Rightarrow> None | Some b \<Rightarrow> fernet_encrypt L k R b)) of
        Some token \<Rightarrow> (Some token, v)
      | None \<Rightarrow> (None, emit (Print_error (u ''Encryption failed'')) v))"


section \<open>Setting and verifying the master password\<close>

definition display_strength :: "pylib \<Rightarrow> str \<Rightarrow> out" where
  "display_strength L pw =
     (let (score, feedback) = check_strength L pw in Display_strength score (length pw) feedback)"

definition show_strength :: "pylib \<Rightarrow> str \<Rightarrow> out" where
  "show_strength L pw = Show_strength (check_strength_v2 L pw)"

text \<open>
  \<open>set_master\<close> (v2.5 lines 314-336). The list \<open>ins\<close> holds the answers that
  \<open>getpass\<close> will read, in order; \<open>getpass\<close> raises \<open>EOFError\<close> when none is left.
  \<open>open(MASTER_FILE, 'w')\<close> has emptied the file when \<open>hash_password\<close> runs.
\<close>

fun set_master_loop :: "pylib \<Rightarrow> (nat \<Rightarrow> nat) \<Rightarrow> 't vault \<Rightarrow> str list \<Rightarrow> (error + bool) \<times> 't vault" where
  "set_master_loop L E v [] = (Inl EOFError, v)"
| "set_master_loop L E v (pw1 # ins) =
     (if fst (check_strength L pw1) < 3 then
        set_master_loop L E
          (emit (display_strength L pw1)
             (emit (Print_warning (u ''Password is weak. Use a stronger password.'')) v))
          ins
      else
        (case ins of
           [] \<Rightarrow> (Inl EOFError, v)
         | pw2 # ins' \<Rightarrow>
             if pw1 = pw2 then
               (case hash_password L pw1 of
                  Inl e \<Rightarrow> (Inl e, v\<lparr>master_file := Some []\<rparr>)
                | Inr h \<Rightarrow>
                    (let (k, v') = get_key L E (v\<lparr>master_file := Some h\<rparr>) pw1
                     in case k of
                          Inl e \<Rightarrow> (Inl e, v')
                        | Inr k' \<Rightarrow>
                            (Inr True,
                             emit (Print_success (u ''Master password set!'')) (v'\<lparr>key := Some k'\<rparr>))))
             else
               set_master_loop L E (emit (Print_error (u ''Passwords don't match.'')) v) ins'))"

definition set_master :: "pylib \<Rightarrow> (nat \<Rightarrow> nat) \<Rightarrow> 't vault \<Rightarrow> str list \<Rightarrow> (error + bool) \<times> 't vault" where
  "set_master L E v ins =
     set_master_loop L E (emit (Print_info (u ''Setting up Password Manager...'')) v) ins"

text \<open>\<open>set_master\<close> of v2.0 (lines 147-161): the same loop over the v2.0 score.\<close>

fun set_master_loop_v2 :: "pylib \<Rightarrow> (nat \<Rightarrow> nat) \<Rightarrow> 't vault \<Rightarrow> str list \<Rightarrow> (error + bool) \<times> 't vault" where
  "set_master_loop_v2 L E v [] = (Inl EOFError, v)"
| "set_master_loop_v2 L E v (pw1 # ins) =
     (if check_strength_v2 L pw1 < 3 then
        set_master_loop_v2 L E (emit (Print_warning (u ''Weak password. Use stronger.'')) v) ins
      else
        (case ins of
           [] \<Rightarrow> (Inl EOFError, v)
         | pw2 # ins' \<Rightarrow>
             if pw1 = pw2 then
               (case hash_password L pw1 of
                  Inl e \<Rightarrow> (Inl e, v\<lparr>master_file := Some []\<rparr>)
                | Inr h \<Rightarrow>
                    (let (k, v') = get_key L E (v\<lparr>master_file := Some h\<rparr>) pw1
                     in case k of
                          Inl e \<Rightarrow> (Inl e, v')
                        | Inr k' \<Rightarrow>
                            (Inr True,
                             emit (Print_success (u ''Master password set'')) (v'\<lparr>key := Some k'\<rparr>))))
             else
               set_master_loop_v2 L E (emit (Print_error (u ''Passwords don't match'')) v) ins'))"

definition set_master_v2 :: "pylib \<Rightarrow> (nat \<Rightarrow> nat) \<Rightarrow> 't vault \<Rightarrow> str list \<Rightarrow> (error + bool) \<times> 't vault" where
  "set_master_v2 L E v ins =
     set_master_loop_v2 L E (emit (Print_info (u ''Setting up Password Manager...'')) v) ins"



section \<open>The operations on the store\<close>

text \<open>
  What one call of an operation reads from its surroundings besides the answers typed
  at the prompts: the reading of \<open>Fernet.encrypt\<close>, \<open>datetime.now().isoformat()\<close>, the
  modification time the store file gets when a change is committed, the timestamp \<open>strftime('%Y%m%d_%H%M%S')\<close> of \<open>backup\<close>, the password the generator
  returns (\<open>generate\<close>, \<open>generate_memorable\<close> or \<open>generate_password\<close>, whose choices
  are the system generator's), whether \<open>pyperclip\<close> was imported (\<open>CLIPBOARD\<close>) and
  whether its \<open>copy\<close> succeeds, and the order in which \<open>glob\<close> lists a directory.
\<close>

record 't env =
  nonce :: bytes
  now :: str
  commit_time :: 't
  backup_ts :: str
  generated :: str
  clipboard :: bool
  copy_ok :: bool
  glob_order :: "'t artifact list \<Rightarrow> 't artifact list"

text \<open>
  How a stretch of a method ends: it goes on with a value, the method returns, or an
  exception leaves for the method's handler.
\<close>

datatype ('a, 's) step = Next 'a 's | Stop 's | Raised 's

subsection \<open>Backup\<close>

text \<open>
  \<open>sorted(..., key=os.path.getmtime, reverse=True)\<close> is stable: descending by
  modification time, ties in the order listed. \<open>backups[n:]\<close> is the slice from
  \<open>n\<close>, counted from the end when \<open>n\<close> is negative.
\<close>

definition sorted_reverse :: "('a \<Rightarrow> 't::linorder) \<Rightarrow> 'a list \<Rightarrow> 'a list" where
  "sorted_reverse f xs = rev (sort_key f (rev xs))"

definition slice_from :: "int \<Rightarrow> 'a list \<Rightarrow> 'a list" where
  "slice_from n xs = (if n \<ge> 0 then drop (nat n) xs else drop (nat (int (length xs) + n)) xs)"

text \<open>
  \<open>shutil.copy2(DB_FILE, backup)\<close> writes the rows under the artifact's name with the
  store file's modification time, in place of an artifact of that name if there is one.
\<close>

definition copy2 :: "'t artifact \<Rightarrow> 't artifact list \<Rightarrow> 't artifact list" where
  "copy2 a dir =
     (if name a \<in> set (map name dir) then map (\<lambda>b. if name b = name a then a else b) dir
      else dir @ [a])"

definition unlink :: "'t artifact list \<Rightarrow> 't artifact list \<Rightarrow> 't artifact list" where
  "unlink olds dir = filter (\<lambda>b. name b \<notin> set (map name olds)) dir"

text \<open>
  \<open>backup\<close> (v2.5 lines 712-733). The store file exists once \<open>setup_db\<close> has run,
  and \<open>backup_count\<close> is an integer.
\<close>

definition backup :: "'t::linorder env \<Rightarrow> bool \<Rightarrow> 't vault \<Rightarrow> 't vault" where
  "backup e silent v =
     (let path = u ''backups/backup_'' @ backup_ts e @ u ''.db'';
          dir = copy2 \<lparr>name = path, mtime = db_mtime v, content = accounts v\<rparr> (backups v);
          listed = sorted_reverse mtime (glob_order e dir);
          v' = v\<lparr>backups := unlink (slice_from (backup_count v) listed) dir\<rparr>
      in if \<not> silent then emit (Print_success (u ''Backup: '' @ path)) v' else v')"

text \<open>\<open>backup\<close> of v2.0 (lines 320-327): the copy, and nothing removed.\<close>

definition backup_v2 :: "'t env \<Rightarrow> 't vault \<Rightarrow> 't vault" where
  "backup_v2 e v =
     (let path = u ''backups/backup_'' @ backup_ts e @ u ''.db''
      in emit (Print_success (u ''Backup: '' @ path))
           (v\<lparr>backups := copy2 \<lparr>name = path, mtime = db_mtime v, content = accounts v\<rparr> (backups v)\<rparr>))"

text \<open>
  A run of calls of \<open>backup\<close>. Between two calls the other operations may have
  rewritten the store file, so each call comes with the surroundings it reads, the
  store file's modification time and its rows at that moment. \<open>artifact_of\<close> is the
  file such a call writes. \<open>lists_once\<close> says of a directory listing that it
  names every entry once.
\<close>

definition artifact_of :: "'t env \<times> 't \<times> row list \<Rightarrow> 't artifact" where
  "artifact_of c =
     (case c of (e, m, rows) \<Rightarrow>
        \<lparr>name = u ''backups/backup_'' @ backup_ts e @ u ''.db'', mtime = m, content = rows\<rparr>)"

definition backup_call :: "'t::linorder env \<times> 't \<times> row list \<Rightarrow> 't vault \<Rightarrow> 't vault" where
  "backup_call c v = (case c of (e, m, rows) \<Rightarrow> backup e True (v\<lparr>db_mtime := m, accounts := rows\<rparr>))"

definition backup_calls :: "('t::linorder env \<times> 't \<times> row list) list \<Rightarrow> 't vault \<Rightarrow> 't vault" where
  "backup_calls cs v = fold backup_call cs v"

definition lists_once :: "('a list \<Rightarrow> 'a list) \<Rightarrow> bool" where
  "lists_once G = (\<forall>dir. set (G dir) = set dir \<and> length (G dir) = length dir)"

subsection \<open>Add\<close>

text \<open>
  \<open>INSERT INTO accounts VALUES (NULL, ...)\<close>: the engine gives the row the largest
  \<open>id\<close> of the table plus one, and 1 in an empty table.
\<close>

definition next_id :: "row list \<Rightarrow> int" where
  "next_id rows = (if rows = [] then 1 else Max (set (map rid rows)) + 1)"

definition insert_row :: "'t env \<Rightarrow> str \<Rightarrow> str \<Rightarrow> bytes \<Rightarrow> str \<Rightarrow> str \<Rightarrow> 't vault \<Rightarrow> 't vault" where
  "insert_row e svc user enc link memo v =
     v\<lparr>accounts := accounts v @
        [\<lparr>rid = next_id (accounts v), service = svc, username = user, password = enc,
          url = link, notes = memo, created = now e, updated = now e\<rparr>],
       db_mtime := commit_time e\<rparr>"

text \<open>
  The password of \<open>add\<close> (v2.5 lines 361-404). The prompt for a length or a number of
  words sits in a \<open>try\<close> whose bare \<open>except\<close> also takes the end of the input, so the
  generated branches use up one answer if there is one.
\<close>

definition add_password :: "pylib \<Rightarrow> 't env \<Rightarrow> str \<Rightarrow> 't vault \<Rightarrow> str list \<Rightarrow> (str \<times> str list, 't vault) step" where
  "add_password L e choice v ins =
     (if choice = u ''1'' \<or> choice = u ''2'' then
        (let pw = generated e;
             v1 = emit (display_strength L pw) (emit (Print (u ''Generated: '' @ pw)) v);
             v2 = (if clipboard e \<and> copy_ok e
                   then emit (Print_success (u ''Copied to clipboard!'')) v1 else v1)
         in Next (pw, tl ins) v2)
      else
        (case ins of
           [] \<Rightarrow> Raised v
         | pw # ins' \<Rightarrow>
             if pw = [] then Stop (emit (Print_error (u ''Password required.'')) v)
             else Next (pw, ins') (emit (display_strength L pw) v)))"

text \<open>The rest of \<open>add\<close> (v2.5 lines 406-422), from the prompt for the URL on.\<close>

definition add_store :: "pylib \<Rightarrow> 't::linorder env \<Rightarrow> str \<Rightarrow> str \<Rightarrow> str \<Rightarrow> 't vault \<Rightarrow> str list \<Rightarrow> (unit, 't vault) step" where
  "add_store L e svc user pw v ins =
     (case ins of
        a4 # a5 # _ \<Rightarrow>
          (let link = strip L a4; memo = strip L a5;
               (encrypted, v1) = encrypt L (nonce e) v pw
           in case encrypted of
                None \<Rightarrow> Stop v1
              | Some token \<Rightarrow>
                  if token = [] then Stop v1
                  else
                    (let v2 = emit (Print_success (u ''Password for '' @ [39] @ svc @ [39] @ u '' added!''))
                                (insert_row e svc user token link memo v1)
                     in Stop (if auto_backup v2 then backup e True v2 else v2)))
      | _ \<Rightarrow> Raised v)"

text \<open>
  The end of a method whose body is a \<open>try\<close>: the state it leaves, with the handler's
  line when an exception was raised. \<open>state_of\<close> is the state a stretch ends in.
\<close>

definition handled :: "str \<Rightarrow> ('a, 't vault) step \<Rightarrow> 't vault" where
  "handled line st =
     (case st of
        Next x v' \<Rightarrow> v'
      | Stop v' \<Rightarrow> v'
      | Raised v' \<Rightarrow> emit (Print_error line) v')"

fun state_of :: "('a, 's) step \<Rightarrow> 's" where
  "state_of (Next x s) = s"
| "state_of (Stop s) = s"
| "state_of (Raised s) = s"

text \<open>
  \<open>add\<close> (v2.5 lines 338-425): the body of its \<open>try\<close>, and the method. Any
  exception ends in the handler's \<open>Failed to add\<close> line.
\<close>

definition add_try :: "pylib \<Rightarrow> 't::linorder env \<Rightarrow> 't vault \<Rightarrow> str list \<Rightarrow> (unit, 't vault) step" where
  "add_try L e v ins =
     (case ins of
        [] \<Rightarrow> Raised v
      | a1 # ins1 \<Rightarrow>
          (let svc = strip L a1
           in if svc = [] then Stop (emit (Print_error (u ''Service name required.'')) v)
              else
                (case ins1 of
                   [] \<Rightarrow> Raised v
                 | a2 # ins2 \<Rightarrow>
                     (let user = strip L a2
                      in if user = [] then Stop (emit (Print_error (u ''Username required.'')) v)
                         else
                           (case ins2 of
                              [] \<Rightarrow> Raised v
                            | a3 # ins3 \<Rightarrow>
                                (case add_password L e (strip L a3) v ins3 of
                                   Next (pw, ins4) v1 \<Rightarrow> add_store L e svc user pw v1 ins4
                                 | Stop v1 \<Rightarrow> Stop v1
                                 | Raised v1 \<Rightarrow> Raised v1))))))"

definition add :: "pylib \<Rightarrow> 't::linorder env \<Rightarrow> 't vault \<Rightarrow> str list \<Rightarrow> 't vault" where
  "add L e v ins = handled (u ''Failed to add'') (add_try L e v ins)"

text \<open>
  \<open>encrypt\<close> of v2.0 (lines 91-92) has no handler: the exception leaves the method.
\<close>

definition encrypt_v2 :: "pylib \<Rightarrow> bytes \<Rightarrow> 't vault \<Rightarrow> str \<Rightarrow> bytes option" where
  "encrypt_v2 L R v data =
     (case key v of
        None \<Rightarrow> None
      | Some k \<Rightarrow> (case utf8_encode data of None \<Rightarrow> None | Some b \<Rightarrow> fernet_encrypt L k R b))"

text \<open>
  \<open>add\<close> of v2.0 (lines 163-197). It has no handler either: \<open>Inl\<close> is the exception
  that leaves it. The answer to \<open>Generate password? (y/n)\<close> is lower-cased.
\<close>

definition yes :: "str \<Rightarrow> bool" where
  "yes a = (a = u ''y'' \<or> a = u ''Y'')"

definition add_v2 :: "pylib \<Rightarrow> 't env \<Rightarrow> 't vault \<Rightarrow> str list \<Rightarrow> error + 't vault" where
  "add_v2 L e v ins =
     (case ins of
        a1 # a2 # a3 # ins3 \<Rightarrow>
          (let svc = strip L a1; user = strip L a2;
               asked =
                 (if yes a3 then
                    (let pw = generated e;
                         v1 = emit (show_strength L pw) (emit (Print (u ''Generated: '' @ pw)) v);
                         v2 = (if clipboard e \<and> copy_ok e
                               then emit (Print_success (u ''Copied to clipboard'')) v1 else v1)
                     in Some (pw, tl ins3, v2))
                  else
                    (case ins3 of
                       [] \<Rightarrow> None
                     | pw # ins4 \<Rightarrow> Some (pw, ins4, emit (show_strength L pw) v)))
           in case asked of
                None \<Rightarrow> Inl EOFError
              | Some (pw, ins4, v1) \<Rightarrow>
                  (case ins4 of
                     a4 # a5 # _ \<Rightarrow>
                       (case encrypt_v2 L (nonce e) v1 pw of
                          None \<Rightarrow> Inl EncryptionError
                        | Some token \<Rightarrow>
                            Inr (emit (Print_success (u ''Added''))
                                   (insert_row e svc user token (strip L a4) (strip L a5) v1)))
                   | _ \<Rightarrow> Inl EOFError))
      | _ \<Rightarrow> Inl EOFError)"

subsection \<open>Update\<close>

text \<open>
  \<open>SELECT ... WHERE id=?\<close> and \<open>UPDATE ... WHERE id=?\<close> with the typed text bound:
  the rows whose \<open>id\<close> the engine finds equal to it.
\<close>

definition select_id :: "pylib \<Rightarrow> str \<Rightarrow> row list \<Rightarrow> row option" where
  "select_id L i rows = find (\<lambda>r. sql_id_eq L (rid r) i) rows"

text \<open>
  The statement \<open>UPDATE accounts SET ... WHERE id=?\<close> that \<open>update\<close> builds: the
  username when one was given, the password when one was encrypted, and the time.
\<close>

definition update_rows :: "pylib \<Rightarrow> str \<Rightarrow> str option \<Rightarrow> bytes option \<Rightarrow> str \<Rightarrow> row list \<Rightarrow> row list" where
  "update_rows L i new_user new_enc stamp rows =
     map (\<lambda>r. if sql_id_eq L (rid r) i
              then (let r1 = (case new_user of None \<Rightarrow> r | Some n \<Rightarrow> r\<lparr>username := n\<rparr>);
                        r2 = (case new_enc of None \<Rightarrow> r1 | Some c \<Rightarrow> r1\<lparr>password := c\<rparr>)
                    in r2\<lparr>updated := stamp\<rparr>)
              else r) rows"

text \<open>
  The new password of \<open>update\<close> (v2.5 lines 561-587): generated, typed, or none on
  \<open>4\<close> and on any other answer.
\<close>

definition update_password :: "'t env \<Rightarrow> str \<Rightarrow> 't vault \<Rightarrow> str list \<Rightarrow> (str option, 't vault) step" where
  "update_password e choice v ins =
     (if choice = u ''1'' \<or> choice = u ''2'' then
        (let v1 = emit (Print (u ''Generated: '' @ generated e)) v
         in Next (Some (generated e))
              (if clipboard e \<and> copy_ok e then emit (Print_success (u ''Copied!'')) v1 else v1))
      else if choice = u ''3'' then
        (case ins of [] \<Rightarrow> Raised v | pw # _ \<Rightarrow> Next (Some pw) v)
      else Next None v)"

text \<open>
  The statement \<open>update\<close> builds and runs (v2.5 lines 589-614), for the row
  \<open>i\<close>, the new username as typed and the new password if one was chosen.
\<close>

definition update_apply :: "pylib \<Rightarrow> 't::linorder env \<Rightarrow> str \<Rightarrow> str \<Rightarrow> str option \<Rightarrow> 't vault \<Rightarrow> 't vault" where
  "update_apply L e i new_user new_pw v =
     (let (new_enc, v1) =
            (case new_pw of
               None \<Rightarrow> (None, v)
             | Some pw \<Rightarrow>
                 if pw = [] then (None, v)
                 else (case encrypt L (nonce e) v pw of
                         (None, v1) \<Rightarrow> (None, v1)
                       | (Some token, v1) \<Rightarrow> if token = [] then (None, v1) else (Some token, v1)));
          updates =
            (if new_user \<noteq> [] then [u ''username=?''] else [])
            @ (if new_enc \<noteq> None then [u ''password=?''] else [])
      in if updates \<noteq> [] then
           (let v2 = emit (Print_success (u ''Updated!''))
                       (v1\<lparr>accounts :=
                             update_rows L i (if new_user \<noteq> [] then Some new_user else None)
                               new_enc (now e) (accounts v1),
                           db_mtime := commit_time e\<rparr>)
            in if auto_backup v2 then backup e True v2 else v2)
         else emit (Print_warning (u ''No changes made.'')) v1)"

text \<open>
  \<open>update\<close> (v2.5 lines 534-617): the body of its \<open>try\<close>, and the method. Only
  the choice \<open>3\<close> reads a further answer that matters: the length asked on \<open>1\<close> sits
  in a \<open>try\<close> with a bare \<open>except\<close>, and nothing is read after it.
\<close>

definition update_try :: "pylib \<Rightarrow> 't::linorder env \<Rightarrow> 't vault \<Rightarrow> str list \<Rightarrow> (unit, 't vault) step" where
  "update_try L e v ins =
     (case ins of
        [] \<Rightarrow> Raised v
      | a1 # ins1 \<Rightarrow>
          (let i = strip L a1
           in case select_id L i (accounts v) of
                None \<Rightarrow> Stop (emit (Print_error (u ''No password with ID '' @ i @ u ''.'')) v)
              | Some found \<Rightarrow>
                  (case ins1 of
                     a2 # a3 # ins3 \<Rightarrow>
                       (case update_password e (strip L a3) v ins3 of
                          Next new_pw v1 \<Rightarrow> Stop (update_apply L e i (strip L a2) new_pw v1)
                        | Stop v1 \<Rightarrow> Stop v1
                        | Raised v1 \<Rightarrow> Raised v1)
                   | _ \<Rightarrow> Raised v)))"

definition update :: "pylib \<Rightarrow> 't::linorder env \<Rightarrow> 't vault \<Rightarrow> str list \<Rightarrow> 't vault" where
  "update L e v ins = handled (u ''Update failed'') (update_try L e v ins)"

text \<open>
  \<open>update\<close> of v2.0 (lines 251-300): no handler, no line when nothing was given.
\<close>

definition update_v2 :: "pylib \<Rightarrow> 't env \<Rightarrow> 't vault \<Rightarrow> str list \<Rightarrow> error + 't vault" where
  "update_v2 L e v ins =
     (case ins of
        [] \<Rightarrow> Inl EOFError
      | a1 # ins1 \<Rightarrow>
          (let i = strip L a1
           in case select_id L i (accounts v) of
                None \<Rightarrow> Inr (emit (Print_error (u ''Not found'')) v)
              | Some found \<Rightarrow>
                  (case ins1 of
                     a2 # a3 # ins3 \<Rightarrow>
                       (let new_user = strip L a2;
                            asked =
                              (if yes a3 then
                                 (let v1 = emit (Print (u ''Generated: '' @ generated e)) v
                                  in Some (generated e,
                                       if clipboard e \<and> copy_ok e
                                       then emit (Print_success (u ''Copied'')) v1 else v1))
                               else (case ins3 of [] \<Rightarrow> None | pw # _ \<Rightarrow> Some (pw, v)))
                        in case asked of
                             None \<Rightarrow> Inl EOFError
                           | Some (new_pw, v1) \<Rightarrow>
                               if new_pw \<noteq> [] \<and> encrypt_v2 L (nonce e) v1 new_pw = None
                               then Inl EncryptionError
                               else
                                 (let new_enc = (if new_pw \<noteq> [] then encrypt_v2 L (nonce e) v1 new_pw
                                                 else None);
                                      updates =
                                        (if new_user \<noteq> [] then [u ''username=?''] else [])
                                        @ (if new_pw \<noteq> [] then [u ''password=?''] else [])
                                  in if updates \<noteq> [] then
                                       Inr (emit (Print_success (u ''Updated''))
                                              (v1\<lparr>accounts :=
                                                    update_rows L i
                                                      (if new_user \<noteq> [] then Some new_user else None)
                                                      new_enc (now e) (accounts v1),
                                                  db_mtime := commit_time e\<rparr>))
                                     else Inr v1))
                   | _ \<Rightarrow> Inl EOFError)))"

subsection \<open>Get and export\<close>






fun decimal :: "nat \<Rightarrow> str" where
  "decimal n = (if n < 10 then [48 + n] else decimal (n div 10) @ [48 + n mod 10])"


section \<open>A concrete setting for evaluation\<close>

text \<open>
  Closed statements need a library, a generator, surroundings and a vault to run in.
  \<open>demo_lib\<close> knows no character beyond ASCII and has stand-ins for the
  cryptographic primitives: they are not SHA-256, PBKDF2 or Fernet, and no theorem
  below takes a security property from them. A token of the stand-in is the reading
  \<open>R\<close>, its length in front, and the plain octets. \<open>fresh_vault\<close> is the state
  \<open>PasswordManager()\<close> sets up in an empty directory: no files, an empty table, the
  default configuration.
\<close>

definition demo_lib :: pylib where
  "demo_lib =
     \<lparr>uc_isupper = (\<lambda>c. False), uc_islower = (\<lambda>c. False),
      uc_isdigit = (\<lambda>c. False), uc_isspace = (\<lambda>c. False),
      sha256 = (\<lambda>b. take 32 (b @ replicate 32 0)),
      pbkdf2_hmac_sha256 = (\<lambda>n salt iterations pw. take n (pw @ salt @ replicate n 0)),
      fernet_encrypt = (\<lambda>k R b. Some (length R # R @ b)),
      fernet_decrypt =
        (\<lambda>k t. case t of
                 [] \<Rightarrow> None
               | n # rest \<Rightarrow> if n \<le> length rest then Some (drop n rest) else None),
      sql_like = (\<lambda>pattern s. pattern = [37] @ s @ [37] \<or> pattern = [37, 37]),
      sql_id_eq = (\<lambda>i s. decimal (nat i) = s)\<rparr>"

definition demo_entropy :: "nat \<Rightarrow> nat" where
  "demo_entropy i = 7 * i + 3"

definition demo_env :: "nat env" where
  "demo_env =
     \<lparr>nonce = [1, 2, 3, 4, 5, 6, 7, 8, 9, 10, 11, 12, 13, 14, 15, 16],
      now = u ''2024-05-01T10:00:00.000000'',
      commit_time = 1,
      backup_ts = u ''20240501_100000'',
      generated = u ''Kq7#vRx2mPz9!bTw'',
      clipboard = False, copy_ok = False,
      glob_order = (\<lambda>dir. dir)\<rparr>"

definition fresh_vault :: "nat vault" where
  "fresh_vault =
     \<lparr>salt_file = None, master_file = None, key = None, accounts = [], db_mtime = 0,
      backups = [], auto_backup = True, backup_count = 5, console = []\<rparr>"

text \<open>
  \<open>demo_vault\<close> is \<open>fresh_vault\<close> after \<open>set_master\<close> with the passphrase
  \<open>Tr0ub4dor&3\<close> typed twice.
\<close>

definition demo_vault :: "nat vault" where
  "demo_vault = snd (set_master demo_lib demo_entropy fresh_vault [u ''Tr0ub4dor&3'', u ''Tr0ub4dor&3''])"

lemma demo_vault_eq:
  "demo_vault = \<lparr>salt_file = Some [3,10,17,24,31,38,45,52,59,66,73,80,87,94,101,108],
     master_file = Some (u ''547230756234646f722633000000000000000000000000000000000000000000''),
     key = Some (u ''VHIwdWI0ZG9yJjMDChEYHyYtNDtCSVBXXmVsAAAAAAA=''),
     accounts = [], db_mtime = 0, backups = [], auto_backup = True, backup_count = 5,
     console = [Print_info (u ''Setting up Password Manager...''), Print_success (u ''Master password set!'')]\<rparr>"
  by code_simp

section \<open>Key derivation\<close>

lemma length_urlsafe_b64encode:
  "length (urlsafe_b64encode bs) = 4 * ((length bs + 2) div 3)"
proof (induction bs rule: urlsafe_b64encode.induct)
  case (4 a b c rest)
  have "(5 + length rest) div 3 = Suc ((length rest + 2) div 3)" by arith
  with 4 show ?case by simp
qed simp_all

lemma length_token_bytes: "length (token_bytes E n) = n"
  by (simp add: token_bytes_def)

text \<open>
  Claim C3, as amended. Given the salt file and a passphrase that UTF-8 can encode,
  \<open>get_key\<close> depends on nothing else: not on the system generator and not on the rest
  of the state, which it leaves as it was. Its result is the URL-safe base64 text of
  \<open>PBKDF2-HMAC-SHA256\<close> with the salt, 100000 iterations and 32 octets asked for;
  when the library returns those 32 octets, the key \<open>get_key\<close> returns is 44 octets
  long, not 32.
\<close>

theorem get_key_derivation:
  assumes "salt_file v = Some salt" and "utf8_encode pw = Some b"
    and "length (pbkdf2_hmac_sha256 L 32 salt 100000 b) = 32"
  shows "get_key L E v pw = (Inr (urlsafe_b64encode (pbkdf2_hmac_sha256 L 32 salt 100000 b)), v)
    \<and> (\<forall>E' v'. salt_file v' = Some salt \<longrightarrow> fst (get_key L E' v' pw) = fst (get_key L E v pw))
    \<and> length (urlsafe_b64encode (pbkdf2_hmac_sha256 L 32 salt 100000 b)) = 44"
  using assms by (simp add: get_key_def get_salt_def length_urlsafe_b64encode)

text \<open>
  The claim as stated fails on the length: for the passphrase \<open>Tr0ub4dor&3\<close> the key
  returned is the 44 characters below.
\<close>

theorem get_key_length_counterexample:
  "fst (get_key demo_lib demo_entropy demo_vault (u ''Tr0ub4dor&3''))
     = Inr (u ''VHIwdWI0ZG9yJjMDChEYHyYtNDtCSVBXXmVsAAAAAAA='')
   \<and> length (u ''VHIwdWI0ZG9yJjMDChEYHyYtNDtCSVBXXmVsAAAAAAA='') = 44"
  by code_simp

theorem get_key_derivation_witness:
  "get_key demo_lib demo_entropy demo_vault (u ''Tr0ub4dor&3'')
     = (Inr (u ''VHIwdWI0ZG9yJjMDChEYHyYtNDtCSVBXXmVsAAAAAAA=''), demo_vault)"
proof -
  have s: "salt_file demo_vault = Some [3,10,17,24,31,38,45,52,59,66,73,80,87,94,101,108]"
    by (simp add: demo_vault_eq)
  have e: "utf8_encode (u ''Tr0ub4dor&3'') = Some (u ''Tr0ub4dor&3'')" by code_simp
  have l: "length (pbkdf2_hmac_sha256 demo_lib 32 [3,10,17,24,31,38,45,52,59,66,73,80,87,94,101,108] 100000 (u ''Tr0ub4dor&3'')) = 32"
    by (simp add: demo_lib_def)
  have k: "urlsafe_b64encode (pbkdf2_hmac_sha256 demo_lib 32 [3,10,17,24,31,38,45,52,59,66,73,80,87,94,101,108] 100000 (u ''Tr0ub4dor&3'')) = u ''VHIwdWI0ZG9yJjMDChEYHyYtNDtCSVBXXmVsAAAAAAA=''"
    by code_simp
  from get_key_derivation [OF s e l, of demo_entropy]
  have "get_key demo_lib demo_entropy demo_vault (u ''Tr0ub4dor&3'')
     = (Inr (urlsafe_b64encode (pbkdf2_hmac_sha256 demo_lib 32 [3,10,17,24,31,38,45,52,59,66,73,80,87,94,101,108] 100000 (u ''Tr0ub4dor&3''))), demo_vault)"
    by blast
  then show ?thesis by (simp only: k)
qed

section \<open>The salt\<close>

text \<open>
  Claim C8. With no salt file, \<open>get_salt\<close> takes 16 octets from the system generator,
  writes them to the file and returns them. With a salt file it returns the contents
  and changes nothing, so any call after the first returns what the first returned,
  whatever the generator would give; and \<open>get_key\<close>, which reads the salt through
  \<open>get_salt\<close>, leaves the state with a salt file as it was.
\<close>

theorem get_salt_persistent:
  "(salt_file v = None \<longrightarrow>
      get_salt E v = (token_bytes E 16, v\<lparr>salt_file := Some (token_bytes E 16)\<rparr>)
      \<and> length (token_bytes E 16) = 16)
   \<and> (salt_file v = Some c \<longrightarrow> get_salt E v = (c, v))
   \<and> get_salt E' (snd (get_salt E v)) = (fst (get_salt E v), snd (get_salt E v))
   \<and> (salt_file v = Some c \<longrightarrow> snd (get_key L E v pw) = v)"
  by (auto simp add: get_salt_def get_key_def Let_def length_token_bytes split: option.splits)

theorem get_salt_persistent_witness:
  "get_salt demo_entropy fresh_vault
     = ([3, 10, 17, 24, 31, 38, 45, 52, 59, 66, 73, 80, 87, 94, 101, 108],
        fresh_vault\<lparr>salt_file := Some [3, 10, 17, 24, 31, 38, 45, 52, 59, 66, 73, 80, 87, 94, 101, 108]\<rparr>)
   \<and> get_salt demo_entropy demo_vault
     = ([3, 10, 17, 24, 31, 38, 45, 52, 59, 66, 73, 80, 87, 94, 101, 108], demo_vault)"
proof -
  have t: "token_bytes demo_entropy 16 = [3, 10, 17, 24, 31, 38, 45, 52, 59, 66, 73, 80, 87, 94, 101, 108]"
    by code_simp
  have n: "salt_file fresh_vault = None" by (simp add: fresh_vault_def)
  have s: "salt_file demo_vault = Some [3, 10, 17, 24, 31, 38, 45, 52, 59, 66, 73, 80, 87, 94, 101, 108]"
    by (simp add: demo_vault_eq)
  from get_salt_persistent [of fresh_vault demo_entropy] n t
  have 1: "get_salt demo_entropy fresh_vault
     = ([3, 10, 17, 24, 31, 38, 45, 52, 59, 66, 73, 80, 87, 94, 101, 108],
        fresh_vault\<lparr>salt_file := Some [3, 10, 17, 24, 31, 38, 45, 52, 59, 66, 73, 80, 87, 94, 101, 108]\<rparr>)"
    by simp
  from get_salt_persistent [of demo_vault demo_entropy] s
  have 2: "get_salt demo_entropy demo_vault
     = ([3, 10, 17, 24, 31, 38, 45, 52, 59, 66, 73, 80, 87, 94, 101, 108], demo_vault)"
    by simp
  from 1 2 show ?thesis by blast
qed

section \<open>The strength gate of setup\<close>

lemma weak_iff: "fst (check_strength L pw) < 3 \<longleftrightarrow> criteria_met L pw + length_bonus pw < 3"
  by (simp add: check_strength_score min_less_iff_disj)

lemma weak_v2_iff: "check_strength_v2 L pw < 3 \<longleftrightarrow> criteria_met L pw + length_bonus_v2 pw < 3"
  by (simp add: check_strength_v2_score min_less_iff_disj)

lemma set_master_loop_accept:
  assumes "\<not> fst (check_strength L pw) < 3" and "hash_password L pw = Inr h"
  shows "fst (set_master_loop L E v (pw # pw # ins)) = Inr True"
    and "master_file (snd (set_master_loop L E v (pw # pw # ins))) = Some h"
  using assms
  by (auto simp add: get_key_def get_salt_def hash_password_def emit_def Let_def
      split: option.splits prod.splits sum.splits)

lemma set_master_loop_v2_accept:
  assumes "\<not> check_strength_v2 L pw < 3" and "hash_password L pw = Inr h"
  shows "fst (set_master_loop_v2 L E v (pw # pw # ins)) = Inr True"
    and "master_file (snd (set_master_loop_v2 L E v (pw # pw # ins))) = Some h"
  using assms
  by (auto simp add: get_key_def get_salt_def hash_password_def emit_def Let_def
      split: option.splits prod.splits sum.splits)

text \<open>
  Claim C4, as amended. \<open>set_master\<close> turns a passphrase away, with the warning and a
  new prompt, when the number of the five criteria it meets plus the points for its
  length (one from 12 characters on, in v2.5 one more from 16 on) is below 3, and
  takes it, once it is confirmed, when that sum is 3 or more. So every passphrase that
  meets 3 of the criteria passes, and one that meets fewer is turned away when it is
  shorter than 12 characters.
\<close>

theorem set_master_strength_gate:
  "(criteria_met L pw + length_bonus pw < 3 \<longrightarrow>
      set_master_loop L E v (pw # ins) =
        set_master_loop L E
          (emit (display_strength L pw)
             (emit (Print_warning (u ''Password is weak. Use a stronger password.'')) v)) ins)
   \<and> (3 \<le> criteria_met L pw + length_bonus pw \<and> hash_password L pw = Inr h \<longrightarrow>
        fst (set_master_loop L E v (pw # pw # ins)) = Inr True
        \<and> master_file (snd (set_master_loop L E v (pw # pw # ins))) = Some h)
   \<and> (3 \<le> criteria_met L pw \<longrightarrow> 3 \<le> criteria_met L pw + length_bonus pw)
   \<and> (criteria_met L pw < 3 \<and> length pw < 12 \<longrightarrow> criteria_met L pw + length_bonus pw < 3)
   \<and> (criteria_met L pw + length_bonus_v2 pw < 3 \<longrightarrow>
        set_master_loop_v2 L E v (pw # ins) =
          set_master_loop_v2 L E (emit (Print_warning (u ''Weak password. Use stronger.'')) v) ins)
   \<and> (3 \<le> criteria_met L pw + length_bonus_v2 pw \<and> hash_password L pw = Inr h \<longrightarrow>
        fst (set_master_loop_v2 L E v (pw # pw # ins)) = Inr True
        \<and> master_file (snd (set_master_loop_v2 L E v (pw # pw # ins))) = Some h)"
proof (intro conjI impI)
  assume "criteria_met L pw + length_bonus pw < 3"
  then have "fst (check_strength L pw) < 3" by (simp add: weak_iff)
  then show "set_master_loop L E v (pw # ins) =
        set_master_loop L E
          (emit (display_strength L pw)
             (emit (Print_warning (u ''Password is weak. Use a stronger password.'')) v)) ins"
    by simp
next
  assume a: "3 \<le> criteria_met L pw + length_bonus pw \<and> hash_password L pw = Inr h"
  then have n: "\<not> fst (check_strength L pw) < 3" by (simp add: weak_iff)
  from set_master_loop_accept(1) [OF n] a
  show "fst (set_master_loop L E v (pw # pw # ins)) = Inr True" by blast
  from set_master_loop_accept(2) [OF n] a
  show "master_file (snd (set_master_loop L E v (pw # pw # ins))) = Some h" by blast
next
  assume "3 \<le> criteria_met L pw"
  then show "3 \<le> criteria_met L pw + length_bonus pw" by simp
next
  assume "criteria_met L pw < 3 \<and> length pw < 12"
  then show "criteria_met L pw + length_bonus pw < 3" by (simp add: length_bonus_def)
next
  assume "criteria_met L pw + length_bonus_v2 pw < 3"
  then have "check_strength_v2 L pw < 3" by (simp add: weak_v2_iff)
  then show "set_master_loop_v2 L E v (pw # ins) =
          set_master_loop_v2 L E (emit (Print_warning (u ''Weak password. Use stronger.'')) v) ins"
    by simp
next
  assume a: "3 \<le> criteria_met L pw + length_bonus_v2 pw \<and> hash_password L pw = Inr h"
  then have n: "\<not> check_strength_v2 L pw < 3" by (simp add: weak_v2_iff)
  from set_master_loop_v2_accept(1) [OF n] a
  show "fst (set_master_loop_v2 L E v (pw # pw # ins)) = Inr True" by blast
  from set_master_loop_v2_accept(2) [OF n] a
  show "master_file (snd (set_master_loop_v2 L E v (pw # pw # ins))) = Some h" by blast
qed

text \<open>
  The claim as stated fails: twelve times the letter \<open>a\<close> meets two of the five
  criteria and is taken, by both editions.
\<close>

theorem set_master_gate_counterexample:
  "criteria_met demo_lib (u ''aaaaaaaaaaaa'') = 2
   \<and> fst (set_master demo_lib demo_entropy fresh_vault [u ''aaaaaaaaaaaa'', u ''aaaaaaaaaaaa'']) = Inr True
   \<and> fst (set_master_v2 demo_lib demo_entropy fresh_vault [u ''aaaaaaaaaaaa'', u ''aaaaaaaaaaaa'']) = Inr True"
  by code_simp

theorem set_master_strength_gate_witness:
  "criteria_met demo_lib (u ''Tr0ub4dor&3'') = 5
   \<and> fst (set_master_loop demo_lib demo_entropy fresh_vault [u ''Tr0ub4dor&3'', u ''Tr0ub4dor&3'']) = Inr True
   \<and> criteria_met demo_lib (u ''abc'') + length_bonus (u ''abc'') = 1
   \<and> set_master_loop demo_lib demo_entropy fresh_vault [u ''abc''] =
        (Inl EOFError,
         emit (display_strength demo_lib (u ''abc''))
           (emit (Print_warning (u ''Password is weak. Use a stronger password.'')) fresh_vault))"
proof -
  have c5: "criteria_met demo_lib (u ''Tr0ub4dor&3'') = 5" by code_simp
  have b: "length_bonus (u ''Tr0ub4dor&3'') = 0" by code_simp
  have h: "hash_password demo_lib (u ''Tr0ub4dor&3'')
     = Inr (u ''547230756234646f722633000000000000000000000000000000000000000000'')" by code_simp
  have c1: "criteria_met demo_lib (u ''abc'') + length_bonus (u ''abc'') = 1" by code_simp
  from set_master_strength_gate [of demo_lib "u ''Tr0ub4dor&3''" demo_entropy fresh_vault "[]"
      "u ''547230756234646f722633000000000000000000000000000000000000000000''" ] c5 b h
  have 1: "fst (set_master_loop demo_lib demo_entropy fresh_vault [u ''Tr0ub4dor&3'', u ''Tr0ub4dor&3'']) = Inr True"
    by simp
  from set_master_strength_gate [of demo_lib "u ''abc''" demo_entropy fresh_vault "[]"] c1
  have 2: "set_master_loop demo_lib demo_entropy fresh_vault [u ''abc''] =
        (Inl EOFError,
         emit (display_strength demo_lib (u ''abc''))
           (emit (Print_warning (u ''Password is weak. Use a stronger password.'')) fresh_vault))"
    by simp
  from c5 1 c1 2 show ?thesis by blast
qed

section \<open>The master verifier\<close>



section \<open>Backup retention\<close>

lemma set_sorted_reverse: "set (sorted_reverse f xs) = set xs"
  by (simp add: sorted_reverse_def)

lemma length_sorted_reverse: "length (sorted_reverse f xs) = length xs"
  by (simp add: sorted_reverse_def)

lemma distinct_sorted_reverse: "distinct (sorted_reverse f xs) = distinct xs"
  by (simp add: sorted_reverse_def)

lemma lists_once_distinct:
  assumes "lists_once G" and "distinct dir"
  shows "distinct (G dir)"
proof -
  from assms(1) have s: "set (G dir) = set dir" and l: "length (G dir) = length dir"
    by (simp_all add: lists_once_def)
  from assms(2) have "card (set dir) = length dir" by (rule distinct_card)
  with s l have "card (set (G dir)) = length (G dir)" by simp
  then show ?thesis by (rule card_distinct)
qed

lemma unlink_set:
  assumes d: "distinct (map name dir)" and sub: "set olds \<subseteq> set dir"
  shows "set (unlink olds dir) = set dir - set olds"
proof -
  from d have inj: "inj_on name (set dir)" by (simp add: distinct_map)
  have "\<And>b. b \<in> set dir \<Longrightarrow> (name b \<in> name ` set olds) = (b \<in> set olds)"
    using inj sub by (auto simp add: inj_on_def)
  then show ?thesis by (auto simp add: unlink_def)
qed

lemma distinct_unlink: "distinct (map name dir) \<Longrightarrow> distinct (map name (unlink olds dir))"
  by (simp add: unlink_def distinct_map_filter)

lemma set_take_drop_distinct:
  assumes "distinct xs"
  shows "set xs - set (drop n xs) = set (take n xs)"
proof -
  have "xs = take n xs @ drop n xs" by simp
  with assms have "distinct (take n xs @ drop n xs)" by simp
  then have "set (take n xs) \<inter> set (drop n xs) = {}" by (simp only: distinct_append)
  moreover have "set xs = set (take n xs) \<union> set (drop n xs)"
    by (metis append_take_drop_id set_append)
  ultimately show ?thesis by blast
qed

text \<open>One pruning: what is left is the first \<open>n\<close> artifacts of the sorted listing.\<close>

lemma prune_set:
  assumes d: "distinct (map name dir)" and G: "lists_once G"
  shows "set (unlink (drop n (sorted_reverse mtime (G dir))) dir)
           = set (take n (sorted_reverse mtime (G dir)))"
proof -
  let ?L = "sorted_reverse mtime (G dir)"
  from G have sL: "set ?L = set dir" by (simp add: set_sorted_reverse lists_once_def)
  from d have dd: "distinct dir" by (simp add: distinct_map)
  with G have dL: "distinct ?L" by (simp add: distinct_sorted_reverse lists_once_distinct)
  have "set (drop n ?L) \<subseteq> set dir" using sL set_drop_subset by fastforce
  with d have "set (unlink (drop n ?L) dir) = set dir - set (drop n ?L)" by (rule unlink_set)
  also have "\<dots> = set ?L - set (drop n ?L)" by (simp only: sL)
  also have "\<dots> = set (take n ?L)" using dL by (rule set_take_drop_distinct)
  finally show ?thesis .
qed

lemma prune_length:
  assumes d: "distinct (map name dir)" and G: "lists_once G"
  shows "length (unlink (drop n (sorted_reverse mtime (G dir))) dir) = min n (length dir)"
proof -
  let ?L = "sorted_reverse mtime (G dir)"
  from d have dd: "distinct dir" by (simp add: distinct_map)
  with G have dL: "distinct ?L" by (simp add: distinct_sorted_reverse lists_once_distinct)
  from G have lL: "length ?L = length dir" by (simp add: length_sorted_reverse lists_once_def)
  from d have "distinct (map name (unlink (drop n ?L) dir))" by (rule distinct_unlink)
  then have "distinct (unlink (drop n ?L) dir)" by (simp add: distinct_map)
  then have "length (unlink (drop n ?L) dir) = card (set (unlink (drop n ?L) dir))"
    by (simp add: distinct_card)
  also have "\<dots> = card (set (take n ?L))" using prune_set [OF d G] by simp
  also have "\<dots> = length (take n ?L)" using dL by (simp add: distinct_card)
  also have "\<dots> = min n (length dir)" using lL by simp
  finally show ?thesis .
qed

lemma backups_backup_call:
  assumes "0 \<le> backup_count v"
  shows "backups (backup_call c v) =
     unlink (drop (nat (backup_count v))
               (sorted_reverse mtime (glob_order (fst c) (copy2 (artifact_of c) (backups v)))))
       (copy2 (artifact_of c) (backups v))"
  using assms
  by (cases c) (simp add: backup_call_def backup_def artifact_of_def Let_def slice_from_def)

lemma backup_count_backup_call: "backup_count (backup_call c v) = backup_count v"
  by (cases c) (simp add: backup_call_def backup_def Let_def)

lemma copy2_fresh: "name a \<notin> name ` set dir \<Longrightarrow> copy2 a dir = dir @ [a]"
  by (simp add: copy2_def)

text \<open>One call with a name not yet in the directory.\<close>

lemma backup_call_fresh:
  assumes n: "0 \<le> backup_count v" and d: "distinct (map name (backups v))"
    and f: "name (artifact_of c) \<notin> name ` set (backups v)"
    and G: "lists_once (glob_order (fst c))"
  shows "set (backups (backup_call c v)) =
           set (take (nat (backup_count v))
                  (sorted_reverse mtime (glob_order (fst c) (backups v @ [artifact_of c]))))"
    and "length (backups (backup_call c v)) = min (nat (backup_count v)) (Suc (length (backups v)))"
    and "distinct (map name (backups (backup_call c v)))"
    and "set (backups (backup_call c v)) \<subseteq> insert (artifact_of c) (set (backups v))"
proof -
  let ?dir = "backups v @ [artifact_of c]"
  from d f have dd: "distinct (map name ?dir)" by simp
  from f have c2: "copy2 (artifact_of c) (backups v) = ?dir" by (rule copy2_fresh)
  have b: "backups (backup_call c v) =
      unlink (drop (nat (backup_count v)) (sorted_reverse mtime (glob_order (fst c) ?dir))) ?dir"
    using backups_backup_call [OF n, of c] by (simp only: c2)
  show "set (backups (backup_call c v)) =
           set (take (nat (backup_count v)) (sorted_reverse mtime (glob_order (fst c) ?dir)))"
    by (simp only: b prune_set [OF dd G])
  show "length (backups (backup_call c v)) = min (nat (backup_count v)) (Suc (length (backups v)))"
    by (simp only: b prune_length [OF dd G]) simp
  show "distinct (map name (backups (backup_call c v)))"
    by (simp only: b distinct_unlink [OF dd])
  show "set (backups (backup_call c v)) \<subseteq> insert (artifact_of c) (set (backups v))"
    by (simp only: b) (auto simp add: unlink_def)
qed

lemma backup_calls_Cons: "backup_calls (c # cs) v = backup_calls cs (backup_call c v)"
  by (simp add: backup_calls_def)

lemma backup_calls_length:
  assumes "0 \<le> backup_count v" and "distinct (map name (backups v))"
    and "length (backups v) \<le> nat (backup_count v)"
    and "distinct (map (\<lambda>c. name (artifact_of c)) cs)"
    and "\<forall>c \<in> set cs. name (artifact_of c) \<notin> name ` set (backups v)"
    and "\<forall>c \<in> set cs. lists_once (glob_order (fst c))"
  shows "length (backups (backup_calls cs v)) = min (length (backups v) + length cs) (nat (backup_count v))"
  using assms
proof (induction cs arbitrary: v)
  case Nil
  then show ?case by (simp add: backup_calls_def)
next
  case (Cons c cs)
  let ?v = "backup_call c v"
  have n: "0 \<le> backup_count v" and d: "distinct (map name (backups v))" by (rule Cons.prems)+
  have f: "name (artifact_of c) \<notin> name ` set (backups v)" using Cons.prems(5) by simp
  have G: "lists_once (glob_order (fst c))" using Cons.prems(6) by simp
  note step = backup_call_fresh [OF n d f G]
  have 1: "0 \<le> backup_count ?v" using n by (simp add: backup_count_backup_call)
  have 3: "length (backups ?v) \<le> nat (backup_count ?v)"
    by (simp add: step(2) backup_count_backup_call)
  have 4: "distinct (map (\<lambda>c. name (artifact_of c)) cs)" using Cons.prems(4) by simp
  have 5: "\<forall>c' \<in> set cs. name (artifact_of c') \<notin> name ` set (backups ?v)"
  proof
    fix c' assume c': "c' \<in> set cs"
    from Cons.prems(4) have "name (artifact_of c) \<notin> (\<lambda>c. name (artifact_of c)) ` set cs" by simp
    with c' have "name (artifact_of c') \<noteq> name (artifact_of c)" by (metis (mono_tags, lifting) image_eqI)
    moreover from Cons.prems(5) c' have "name (artifact_of c') \<notin> name ` set (backups v)" by simp
    ultimately show "name (artifact_of c') \<notin> name ` set (backups ?v)"
      using step(4) by auto
  qed
  have 6: "\<forall>c \<in> set cs. lists_once (glob_order (fst c))" using Cons.prems(6) by simp
  from Cons.IH [OF 1 step(3) 3 4 5 6]
  have "length (backups (backup_calls cs ?v)) = min (length (backups ?v) + length cs) (nat (backup_count ?v))" .
  then have "length (backups (backup_calls (c # cs) v)) =
      min (min (nat (backup_count v)) (Suc (length (backups v))) + length cs) (nat (backup_count v))"
    by (simp add: backup_calls_Cons step(2) backup_count_backup_call)
  also have "\<dots> = min (length (backups v) + length (c # cs)) (nat (backup_count v))"
    by (simp add: min_def)
  finally show ?case .
qed

text \<open>
  When the new artifact is younger than all the others, and these have distinct
  times, the sorted listing is the artifacts from the youngest to the oldest.
\<close>

lemma backup_call_newest:
  assumes n: "0 \<le> backup_count v" and d: "distinct (map name (backups v))"
    and f: "name (artifact_of c) \<notin> name ` set (backups v)"
    and G: "lists_once (glob_order (fst c))"
    and D: "set D = set (backups v)"
    and s: "sorted_wrt (<) (map mtime (D @ [artifact_of c]))"
  shows "set (backups (backup_call c v)) =
           set (drop (Suc (length D) - nat (backup_count v)) (D @ [artifact_of c]))"
proof -
  let ?X = "D @ [artifact_of c]"
  let ?dir = "backups v @ [artifact_of c]"
  let ?L = "sorted_reverse mtime (glob_order (fst c) ?dir)"
  from d f have dd: "distinct ?dir" by (auto simp add: distinct_map)
  from G have sG: "set (glob_order (fst c) ?dir) = set ?dir" by (simp add: lists_once_def)
  have sL: "set (rev ?L) = set ?X" using sG D by (simp add: set_sorted_reverse)
  from G dd have dL: "distinct (rev ?L)"
    by (simp add: distinct_sorted_reverse lists_once_distinct)
  from s have sX: "sorted (map mtime ?X)" and dX: "distinct (map mtime ?X)"
    by (simp_all only: strict_sorted_iff)
  from dX have inj: "inj_on mtime (set ?X)" by (simp only: distinct_map)
  have soL: "sorted (map mtime (rev ?L))" by (simp add: sorted_reverse_def)
  have dmL: "distinct (map mtime (rev ?L))"
    using dL inj sL by (simp add: distinct_map)
  have "inj_on mtime (set (rev ?L) \<union> set ?X)" using inj sL by simp
  then have "rev ?L = ?X"
    using soL dmL sX dX sL by (rule map_sorted_distinct_set_unique)
  then have L: "?L = rev ?X" by (metis rev_rev_ident)
  have "set (backups (backup_call c v)) = set (take (nat (backup_count v)) ?L)"
    by (rule backup_call_fresh(1) [OF n d f G])
  also have "\<dots> = set (take (nat (backup_count v)) (rev ?X))" by (simp only: L)
  also have "\<dots> = set (drop (length ?X - nat (backup_count v)) ?X)"
    by (simp only: take_rev set_rev)
  finally show ?thesis by simp
qed

lemma backup_calls_newest:
  assumes "0 \<le> backup_count v" and "distinct (map name (backups v))"
    and "length D \<le> nat (backup_count v)" and "set D = set (backups v)"
    and "sorted_wrt (<) (map mtime (D @ map artifact_of cs))"
    and "distinct (map (\<lambda>c. name (artifact_of c)) cs)"
    and "\<forall>c \<in> set cs. name (artifact_of c) \<notin> name ` set (backups v)"
    and "\<forall>c \<in> set cs. lists_once (glob_order (fst c))"
  shows "set (backups (backup_calls cs v)) =
           set (drop (length D + length cs - nat (backup_count v)) (D @ map artifact_of cs))"
  using assms
proof (induction cs arbitrary: v D)
  case Nil
  then show ?case by (simp add: backup_calls_def)
next
  case (Cons c cs)
  let ?v = "backup_call c v"
  let ?N = "nat (backup_count v)"
  let ?k = "Suc (length D) - ?N"
  let ?D = "drop ?k (D @ [artifact_of c])"
  have n: "0 \<le> backup_count v" and d: "distinct (map name (backups v))" by (rule Cons.prems)+
  have f: "name (artifact_of c) \<notin> name ` set (backups v)" using Cons.prems(7) by simp
  have G: "lists_once (glob_order (fst c))" using Cons.prems(8) by simp
  have sorted_all: "sorted_wrt (<) (map mtime ((D @ [artifact_of c]) @ map artifact_of cs))"
    using Cons.prems(5) by simp
  then have s: "sorted_wrt (<) (map mtime (D @ [artifact_of c]))"
    by (simp add: sorted_wrt_append)
  note step = backup_call_fresh [OF n d f G]
  have new: "set (backups ?v) = set ?D"
    by (rule backup_call_newest [OF n d f G Cons.prems(4) s])
  have 1: "0 \<le> backup_count ?v" using n by (simp add: backup_count_backup_call)
  have 3: "length ?D \<le> nat (backup_count ?v)"
    using Cons.prems(3) by (simp add: backup_count_backup_call)
  have 4: "set ?D = set (backups ?v)" using new by simp
  have k0: "?k - length (D @ [artifact_of c]) = 0" by simp
  have app: "?D @ map artifact_of cs = drop ?k ((D @ [artifact_of c]) @ map artifact_of cs)"
    by (simp only: drop_append [of ?k "D @ [artifact_of c]"] k0 drop_0)
  have "sorted_wrt (<) (drop ?k (map mtime ((D @ [artifact_of c]) @ map artifact_of cs)))"
    using sorted_all by (rule sorted_wrt_drop)
  then have 5: "sorted_wrt (<) (map mtime (?D @ map artifact_of cs))"
    by (simp only: app drop_map)
  have 6: "distinct (map (\<lambda>c. name (artifact_of c)) cs)" using Cons.prems(6) by simp
  have 7: "\<forall>c' \<in> set cs. name (artifact_of c') \<notin> name ` set (backups ?v)"
  proof
    fix c' assume c': "c' \<in> set cs"
    from Cons.prems(6) have "name (artifact_of c) \<notin> (\<lambda>c. name (artifact_of c)) ` set cs" by simp
    with c' have "name (artifact_of c') \<noteq> name (artifact_of c)" by (metis (mono_tags, lifting) image_eqI)
    moreover from Cons.prems(7) c' have "name (artifact_of c') \<notin> name ` set (backups v)" by simp
    ultimately show "name (artifact_of c') \<notin> name ` set (backups ?v)"
      using step(4) by auto
  qed
  have 8: "\<forall>c \<in> set cs. lists_once (glob_order (fst c))" using Cons.prems(8) by simp
  have "set (backups (backup_calls cs ?v)) =
      set (drop (length ?D + length cs - nat (backup_count ?v)) (?D @ map artifact_of cs))"
    by (rule Cons.IH [OF 1 step(3) 3 4 5 6 7 8])
  also have "\<dots> = set (drop (length ?D + length cs - ?N + ?k) ((D @ [artifact_of c]) @ map artifact_of cs))"
    by (simp only: app drop_drop backup_count_backup_call)
  also have "length ?D + length cs - ?N + ?k = length D + length (c # cs) - ?N"
  proof -
    have lD: "length ?D = Suc (length D) - ?k" by simp
    have ar: "\<And>d n m :: nat. d \<le> n \<Longrightarrow> (Suc d - (Suc d - n)) + m - n + (Suc d - n) = d + Suc m - n"
      by arith
    show ?thesis using ar [OF Cons.prems(3), of "length cs"] by (simp only: lD list.size) simp
  qed
  finally show ?case by (simp add: backup_calls_Cons)
qed

lemma artifact_name_inj:
  "(name (artifact_of c) = name (artifact_of c')) = (backup_ts (fst c) = backup_ts (fst c'))"
  by (cases c; cases c') (simp add: artifact_of_def)

lemma distinct_artifact_names:
  assumes "distinct (map (\<lambda>c. backup_ts (fst c)) cs)"
  shows "distinct (map (\<lambda>c. name (artifact_of c)) cs)"
proof -
  from assms have dc: "distinct cs" and inj: "inj_on (\<lambda>c. backup_ts (fst c)) (set cs)"
    by (simp_all add: distinct_map)
  have "inj_on (\<lambda>c. name (artifact_of c)) (set cs)"
    using inj by (simp add: inj_on_def artifact_name_inj)
  with dc show ?thesis by (simp add: distinct_map)
qed

text \<open>
  Claim C7, as amended. From an empty backup directory, \<open>N + 2\<close> calls of \<open>backup\<close>
  with retention count \<open>N\<close> whose timestamps differ pairwise leave exactly \<open>N\<close>
  artifacts, whatever the order in which the directory is listed. Each call writes
  the store file under the name of its timestamp, with the store file's modification
  time, and removes what stands after the first \<open>N\<close> entries of the listing sorted by
  modification time, youngest first (\<open>backup_call_fresh\<close>). When the store file's
  modification time grows from call to call, the artifacts left are those of the last
  \<open>N\<close> calls: the two oldest are gone.
\<close>

theorem backup_retention:
  assumes e: "backups v = []" and n: "0 \<le> backup_count v"
    and l: "length cs = nat (backup_count v) + 2"
    and t: "distinct (map (\<lambda>c. backup_ts (fst c)) cs)"
    and G: "\<forall>c \<in> set cs. lists_once (glob_order (fst c))"
  shows "length (backups (backup_calls cs v)) = nat (backup_count v)
    \<and> (sorted_wrt (<) (map (\<lambda>c. fst (snd c)) cs) \<longrightarrow>
         set (backups (backup_calls cs v)) = set (drop 2 (map artifact_of cs)))"
proof
  have dn: "distinct (map (\<lambda>c. name (artifact_of c)) cs)" using t by (rule distinct_artifact_names)
  have d0: "distinct (map name (backups v))" using e by simp
  have f: "\<forall>c \<in> set cs. name (artifact_of c) \<notin> name ` set (backups v)" using e by simp
  have "length (backups (backup_calls cs v)) = min (length (backups v) + length cs) (nat (backup_count v))"
    using n d0 _ dn f G by (rule backup_calls_length) (simp add: e)
  then show "length (backups (backup_calls cs v)) = nat (backup_count v)" using e l by simp
  show "sorted_wrt (<) (map (\<lambda>c. fst (snd c)) cs) \<longrightarrow>
         set (backups (backup_calls cs v)) = set (drop 2 (map artifact_of cs))"
  proof
    assume s: "sorted_wrt (<) (map (\<lambda>c. fst (snd c)) cs)"
    have m: "map (mtime \<circ> artifact_of) cs = map (\<lambda>c. fst (snd c)) cs"
      by (simp add: artifact_of_def split_def)
    have s': "sorted_wrt (<) (map mtime ([] @ map artifact_of cs))" using s by (simp add: m)
    have "set (backups (backup_calls cs v)) =
        set (drop (length ([] :: 'a artifact list) + length cs - nat (backup_count v)) ([] @ map artifact_of cs))"
      using n d0 _ _ s' dn f G by (rule backup_calls_newest) (simp_all add: e)
    then show "set (backups (backup_calls cs v)) = set (drop 2 (map artifact_of cs))"
      using l by simp
  qed
qed

text \<open>
  The claim as stated fails when calls fall into the same second: they write the same
  file. Seven calls at one timestamp with the default count 5 leave one artifact.
\<close>

text \<open>Seven calls, one second and one tick of the store file's time apart.\<close>

definition demo_call :: "nat \<Rightarrow> nat env \<times> nat \<times> row list" where
  "demo_call i = (demo_env\<lparr>backup_ts := u ''20240501_10000'' @ [48 + i]\<rparr>, i, [])"

definition demo_calls :: "(nat env \<times> nat \<times> row list) list" where
  "demo_calls = map demo_call [1, 2, 3, 4, 5, 6, 7]"

theorem backup_same_second_counterexample:
  "backup_count fresh_vault = 5
   \<and> backups fresh_vault = []
   \<and> length (replicate 7 (demo_env, 0 :: nat, [] :: row list)) = 5 + 2
   \<and> map name (backups (backup_calls (replicate 7 (demo_env, 0, [])) fresh_vault))
       = [u ''backups/backup_20240501_100000.db'']"
  by code_simp

theorem backup_retention_witness:
  "length (backups (backup_calls demo_calls fresh_vault)) = 5
   \<and> set (backups (backup_calls demo_calls fresh_vault))
       = set (map artifact_of (map demo_call [3, 4, 5, 6, 7]))"
proof -
  have e: "backups fresh_vault = []" by (simp add: fresh_vault_def)
  have n: "0 \<le> backup_count fresh_vault" by (simp add: fresh_vault_def)
  have l: "length demo_calls = nat (backup_count fresh_vault) + 2"
    by (simp add: demo_calls_def fresh_vault_def)
  have t: "distinct (map (\<lambda>c. backup_ts (fst c)) demo_calls)"
    by (simp add: demo_calls_def demo_call_def)
  have G: "\<forall>c \<in> set demo_calls. lists_once (glob_order (fst c))"
    by (simp add: demo_calls_def demo_call_def demo_env_def lists_once_def)
  have s: "sorted_wrt (<) (map (\<lambda>c. fst (snd c)) demo_calls)"
    by (simp add: demo_calls_def demo_call_def)
  have d: "drop 2 (map artifact_of demo_calls) = map artifact_of (map demo_call [3, 4, 5, 6, 7])"
    by (simp add: demo_calls_def)
  from backup_retention [OF e n l t G] s d
  show ?thesis by (simp add: fresh_vault_def)
qed

section \<open>A store with a damaged and an empty secret\<close>

text \<open>
  Three rows under the key of \<open>demo_vault\<close>: one whose token is damaged, one whose
  secret is the empty string, and a sound one. The second is the row that \<open>add\<close> of
  v2.0 stores when nothing is typed at its password prompt.
\<close>

definition row_damaged :: row where
  "row_damaged =
     \<lparr>rid = 1, service = u ''bank'', username = u ''carol'', password = [200, 1, 2],
      url = [], notes = [], created = u ''2024-04-01T09:00:00.000000'',
      updated = u ''2024-04-01T09:00:00.000000''\<rparr>"

definition row_empty :: row where
  "row_empty =
     \<lparr>rid = 2, service = u ''mail'', username = u ''bob'',
      password = [16, 1, 2, 3, 4, 5, 6, 7, 8, 9, 10, 11, 12, 13, 14, 15, 16],
      url = [], notes = [], created = u ''2024-05-01T10:00:00.000000'',
      updated = u ''2024-05-01T10:00:00.000000''\<rparr>"

definition row_sound :: row where
  "row_sound =
     \<lparr>rid = 3, service = u ''example.com'', username = u ''alice'',
      password = [16, 1, 2, 3, 4, 5, 6, 7, 8, 9, 10, 11, 12, 13, 14, 15, 16] @ u ''p@ss!23'',
      url = [], notes = [], created = u ''2024-05-01T10:00:00.000000'',
      updated = u ''2024-05-01T10:00:00.000000''\<rparr>"

definition demo_store :: "nat vault" where
  "demo_store = demo_vault\<lparr>accounts := [row_damaged, row_empty, row_sound]\<rparr>"

section \<open>Validation in add\<close>

lemma add_rejects_empty_service:
  assumes "strip L a1 = []"
  shows "add L e v (a1 # ins) = emit (Print_error (u ''Service name required.'')) v"
  using assms by (simp add: add_def add_try_def handled_def)

lemma add_rejects_empty_username:
  assumes "strip L a1 \<noteq> []" and "strip L a2 = []"
  shows "add L e v (a1 # a2 # ins) = emit (Print_error (u ''Username required.'')) v"
  using assms by (simp add: add_def add_try_def handled_def Let_def)

lemma accounts_emit: "accounts (emit m v) = accounts v"
  by (simp add: emit_def)

lemma add_validates:
  assumes "strip L a1 = [] \<or> strip L a2 = []"
  shows "accounts (add L e v (a1 # a2 # ins)) = accounts v
    \<and> (\<exists>m. add L e v (a1 # a2 # ins) = emit (Print_error m) v)"
  using assms
  by (cases "strip L a1 = []")
     (auto simp add: add_rejects_empty_service add_rejects_empty_username accounts_emit)
text \<open>
  Claim C5. \<open>add\<close> of v2.5 checks the service and the username itself and stores
  nothing when either is empty after stripping (\<open>add_validates\<close>). \<open>add\<close> of v2.0
  has no such check: with a blank service and an empty username it stores the row,
  where v2.5 on the same answers stores none.
\<close>

theorem add_v2_empty_service:
  "map_sum id (\<lambda>v. map (\<lambda>r. (rid r, service r, username r)) (accounts v))
     (add_v2 demo_lib demo_env demo_vault [u ''  '', [], u ''n'', u ''p@ss!23'', [], []])
   = Inr [(1, [], [])]
   \<and> accounts (add demo_lib demo_env demo_vault [u ''  '', [], u ''3'', u ''p@ss!23'', [], []])
     = []"
  by code_simp

section \<open>The frame of update\<close>

lemma encrypt_Some: "encrypt L R v d = (Some t, v') \<Longrightarrow> v' = v"
  by (auto simp add: encrypt_def split: option.splits)

lemma accounts_backup: "accounts (backup e s v) = accounts v"
  by (simp add: backup_def Let_def emit_def)

lemma update_secret_only:
  assumes sel: "select_id L (strip L a1) (accounts v) = Some r0"
    and user: "strip L a2 = []" and ch: "strip L a3 = u ''3''" and pw: "pw \<noteq> []"
    and enc: "encrypt L (nonce e) v pw = (Some token, v)" and tok: "token \<noteq> []"
  shows "accounts (update L e v [a1, a2, a3, pw]) =
     map (\<lambda>r. if sql_id_eq L (rid r) (strip L a1) then r\<lparr>password := token, updated := now e\<rparr> else r)
       (accounts v)"
proof -
  have c: "u ''3'' \<noteq> u ''1'' \<and> u ''3'' \<noteq> u ''2''" by (simp add: u_def)
  have p: "update_password e (u ''3'') v [pw] = Next (Some pw) v"
    using c by (simp add: update_password_def)
  show ?thesis
    using sel user pw enc tok
    by (simp add: update_def update_try_def update_apply_def handled_def ch p Let_def
        update_rows_def accounts_backup accounts_emit)
qed

lemma update_nothing:
  assumes sel: "select_id L (strip L a1) (accounts v) = Some r0"
    and user: "strip L a2 = []"
    and ch: "strip L a3 \<noteq> u ''1''" "strip L a3 \<noteq> u ''2''" "strip L a3 \<noteq> u ''3''"
  shows "update L e v (a1 # a2 # a3 # ins) = emit (Print_warning (u ''No changes made.'')) v"
  using assms
  by (simp add: update_def update_try_def update_apply_def handled_def update_password_def Let_def)
text \<open>
  Claim C6. In v2.5 an update that gives only a new secret rewrites the password and
  the time of change of the row and nothing else (\<open>update_secret_only\<close>), and one
  that gives nothing leaves the state as it was and prints the warning
  \<open>No changes made.\<close> (\<open>update_nothing\<close>). \<open>update\<close> of v2.0 changes nothing either
  when nothing is given, but it prints nothing: the state it returns is the state it
  was given, terminal included.
\<close>

theorem update_v2_silent:
  "update_v2 demo_lib demo_env demo_store [u ''3'', [], u ''n'', []] = Inr demo_store
   \<and> update demo_lib demo_env demo_store [u ''3'', [], u ''4'']
     = emit (Print_warning (u ''No changes made.'')) demo_store"
  by code_simp

section \<open>Records that fail to decrypt\<close>














end
